theory Spec2Isabelle
  imports Main
begin

section \<open>JavaScript strings and values\<close>

text \<open>
  Strings of the program are modelled as \<^typ>\<open>string\<close>, each \<^typ>\<open>char\<close> read as
  one code unit in the range 0..255 (the Latin-1 block of Unicode). On that block
  \<^verbatim>\<open>String.prototype.trim\<close> and \<^verbatim>\<open>toLowerCase\<close> act character by character, as
  written out below. A value that may be \<^verbatim>\<open>undefined\<close> or \<^verbatim>\<open>null\<close> is an
  \<^typ>\<open>string option\<close>.
\<close>

definition is_space :: "char \<Rightarrow> bool" where
  "is_space c = ((of_char c :: nat) \<in> {9, 10, 11, 12, 13, 32, 160})"

definition trim :: "string \<Rightarrow> string" where
  "trim s = rev (dropWhile is_space (rev (dropWhile is_space s)))"

definition lower_char :: "char \<Rightarrow> char" where
  "lower_char c =
     (let n = (of_char c :: nat)
      in if (65 \<le> n \<and> n \<le> 90) \<or> (192 \<le> n \<and> n \<le> 222 \<and> n \<noteq> 215)
         then char_of (n + 32) else c)"

definition toLowerCase :: "string \<Rightarrow> string" where
  "toLowerCase s = map lower_char s"

text \<open>\<^verbatim>\<open>s.includes(sub)\<close>: \<open>sub\<close> occurs in \<open>s\<close> as a contiguous run.\<close>

fun str_includes :: "string \<Rightarrow> string \<Rightarrow> bool" where
  "str_includes [] sub = (sub = [])"
| "str_includes (c # cs) sub = (take (length sub) (c # cs) = sub \<or> str_includes cs sub)"

text \<open>Truthiness of a possibly missing string: \<^verbatim>\<open>undefined\<close>, \<^verbatim>\<open>null\<close> and \<^verbatim>\<open>''\<close> are falsy.\<close>

fun truthy :: "string option \<Rightarrow> bool" where
  "truthy None = False"
| "truthy (Some s) = (s \<noteq> [])"

text \<open>\<^verbatim>\<open>(x && String(x).trim()) || ''\<close>\<close>

definition trimmed_or_empty :: "string option \<Rightarrow> string" where
  "trimmed_or_empty x = (case x of None \<Rightarrow> [] | Some s \<Rightarrow> (if s \<noteq> [] then trim s else []))"

text \<open>\<^verbatim>\<open>(x && String(x)) || ''\<close>\<close>

definition string_or_empty :: "string option \<Rightarrow> string" where
  "string_or_empty x = (case x of None \<Rightarrow> [] | Some s \<Rightarrow> s)"

section \<open>Configuration\<close>

text \<open>
  The environment variables read at start-up. \<open>credentialsValid\<close> stands for
  \<^verbatim>\<open>JSON.parse(credentialsJson)\<close> not throwing; the parser belongs to the runtime.
\<close>

record config =
  stripeWebhookSecret :: "string option"
  spreadsheetId :: "string option"
  credentialsJson :: "string option"
  credentialsValid :: bool
  googleAccountFieldKey :: string

definition STATUS_ACTIVE :: string where
  "STATUS_ACTIVE = ''active''"

section \<open>The row store\<close>

text \<open>
  The spreadsheet is an external collaborator. Its contract, as the program relies on
  it: \<^verbatim>\<open>values.get\<close> on columns A..n returns the rows of the sheet in order, each
  cut to its first n cells; \<^verbatim>\<open>values.update\<close> overwrites a bounded run of cells of
  one row; \<^verbatim>\<open>values.append\<close> inserts one row at the end. Any call may throw.

  The state of the world is the grid of the sheet, a schedule telling for each coming
  call whether it throws, and the log of the calls made so far.
\<close>

datatype error = MissingConfig | InvalidCredentials | StoreFailure

datatype api_call =
    Get nat
  | Update nat nat "string list"
  | Append "string list"

type_synonym row = "string list"

record world =
  grid :: "row list"
  faults :: "bool list"
  calls :: "api_call list"

text \<open>A call is logged, and goes through unless the schedule says it throws.\<close>

definition request :: "api_call \<Rightarrow> world \<Rightarrow> bool \<times> world" where
  "request c w =
     (case faults w of
        [] \<Rightarrow> (True, w\<lparr>calls := calls w @ [c]\<rparr>)
      | f # fs \<Rightarrow> (\<not> f, w\<lparr>faults := fs, calls := calls w @ [c]\<rparr>))"

definition values_get :: "nat \<Rightarrow> world \<Rightarrow> (error + row list) \<times> world" where
  "values_get n w =
     (case request (Get n) w of
        (True, w') \<Rightarrow> (Inr (map (take n) (grid w')), w')
      | (False, w') \<Rightarrow> (Inl StoreFailure, w'))"

text \<open>
  Writing \<open>vs\<close> into a row from column \<open>c\<close> (0-based, so B is 1): a row shorter than
  \<open>c\<close> cells grows by empty cells, and the cells right of the written run stay.
\<close>

definition write_row :: "nat \<Rightarrow> string list \<Rightarrow> row \<Rightarrow> row" where
  "write_row c vs old =
     take c (old @ replicate (c - length old) []) @ vs @ drop (c + length vs) old"

text \<open>
  Writing into row \<open>r\<close> of the sheet (1-based): a sheet shorter than \<open>r\<close> rows grows by
  empty rows. Row 0 is not a valid A1 address; \<open>values_update\<close> rejects it.
\<close>

definition write_cells :: "nat \<Rightarrow> nat \<Rightarrow> string list \<Rightarrow> row list \<Rightarrow> row list" where
  "write_cells r c vs g =
     (let g' = g @ replicate (r - length g) []
      in g'[r - 1 := write_row c vs (g' ! (r - 1))])"

definition values_update ::
  "nat \<Rightarrow> nat \<Rightarrow> string list \<Rightarrow> world \<Rightarrow> (error + unit) \<times> world" where
  "values_update r c vs w =
     (case request (Update r c vs) w of
        (True, w') \<Rightarrow>
          (if r = 0 then (Inl StoreFailure, w')
           else (Inr (), w'\<lparr>grid := write_cells r c vs (grid w')\<rparr>))
      | (False, w') \<Rightarrow> (Inl StoreFailure, w'))"

definition values_append :: "string list \<Rightarrow> world \<Rightarrow> (error + unit) \<times> world" where
  "values_append vs w =
     (case request (Append vs) w of
        (True, w') \<Rightarrow> (Inr (), w'\<lparr>grid := grid w' @ [vs]\<rparr>)
      | (False, w') \<Rightarrow> (Inl StoreFailure, w'))"

definition getSheetsClient :: "config \<Rightarrow> error + unit" where
  "getSheetsClient cfg =
     (if \<not> truthy (spreadsheetId cfg) \<or> \<not> truthy (credentialsJson cfg) then Inl MissingConfig
      else if \<not> credentialsValid cfg then Inl InvalidCredentials
      else Inr ())"

section \<open>Rows\<close>

text \<open>
  \<^verbatim>\<open>row[i]\<close>: \<^verbatim>\<open>undefined\<close> past the end of the row. The cells of a row are
  strings, as the store returns them.
\<close>

definition cell :: "row \<Rightarrow> nat \<Rightarrow> string option" where
  "cell r i = (if i < length r then Some (r ! i) else None)"

text \<open>\<^verbatim>\<open>(rows[0] && rows[0][0] && String(rows[0][0]).toLowerCase()) || ''\<close>\<close>

definition first_cell_lower :: "row list \<Rightarrow> string" where
  "first_cell_lower rows =
     (case rows of
        [] \<Rightarrow> []
      | r # _ \<Rightarrow> toLowerCase (string_or_empty (cell r 0)))"

definition getDataRows :: "row list \<Rightarrow> row list" where
  "getDataRows rows =
     (if rows = [] then []
      else if str_includes (first_cell_lower rows) ''email'' then drop 1 rows
      else rows)"


text \<open>The columns as the loops read them: \<^verbatim>\<open>(row[i] && String(row[i]).trim()) || ''\<close>.\<close>

definition colA :: "row \<Rightarrow> string" where
  "colA r = trimmed_or_empty (cell r 0)"

definition colB :: "row \<Rightarrow> string" where
  "colB r = trimmed_or_empty (cell r 1)"

definition colC :: "row \<Rightarrow> string" where
  "colC r = trimmed_or_empty (cell r 2)"

text \<open>
  \<^verbatim>\<open>for (let i = 0; i < rows.length; i++) if (P(rows[i])) { ...; return; }\<close>:
  the index at which the loop stops, if it does.
\<close>

fun first_index :: "('a \<Rightarrow> bool) \<Rightarrow> 'a list \<Rightarrow> nat option" where
  "first_index P [] = None"
| "first_index P (x # xs) = (if P x then Some 0 else map_option Suc (first_index P xs))"

section \<open>Paid-status query\<close>

record check_result =
  paid :: bool
  status :: "string option"

text \<open>The body of the loop of \<^verbatim>\<open>checkPaidUserEmail\<close> on the row that matched.\<close>

definition row_result :: "row \<Rightarrow> check_result" where
  "row_result r =
     (let st = colB r;
          effectiveStatus = (if st \<noteq> [] then st else STATUS_ACTIVE)
      in \<lparr>paid = (toLowerCase effectiveStatus = STATUS_ACTIVE),
          status = (if effectiveStatus \<noteq> [] then Some effectiveStatus else None)\<rparr>)"

fun scan_email :: "string \<Rightarrow> row list \<Rightarrow> check_result" where
  "scan_email normalized [] = \<lparr>paid = False, status = None\<rparr>"
| "scan_email normalized (r # rows) =
     (if toLowerCase (colA r) \<noteq> normalized then scan_email normalized rows
      else row_result r)"

definition checkPaidUserEmail ::
  "config \<Rightarrow> string \<Rightarrow> world \<Rightarrow> (error + check_result) \<times> world" where
  "checkPaidUserEmail cfg email w =
     (let normalized = toLowerCase (trim email)
      in if normalized = [] then (Inr \<lparr>paid = False, status = None\<rparr>, w)
         else case getSheetsClient cfg of
                Inl e \<Rightarrow> (Inl e, w)
              | Inr _ \<Rightarrow>
                 (case values_get 2 w of
                    (Inl e, w') \<Rightarrow> (Inl e, w')
                  | (Inr existing, w') \<Rightarrow>
                      (Inr (scan_email normalized (getDataRows existing)), w')))"

section \<open>User record reconciler\<close>

definition upsertPaidUser ::
  "config \<Rightarrow> string \<Rightarrow> string \<Rightarrow> string \<Rightarrow> world \<Rightarrow> (error + unit) \<times> world" where
  "upsertPaidUser cfg email st subscriptionId w =
     (case getSheetsClient cfg of
        Inl e \<Rightarrow> (Inl e, w)
      | Inr _ \<Rightarrow>
         (case values_get 3 w of
            (Inl e, w') \<Rightarrow> (Inl e, w')
          | (Inr allRows, w') \<Rightarrow>
             (let rows = getDataRows allRows;
                  headerOffset = length allRows - length rows;
                  normalized = toLowerCase (trim email);
                  subId = (if subscriptionId \<noteq> [] then trim subscriptionId else [])
              in case first_index (\<lambda>r. toLowerCase (colA r) = normalized) rows of
                   Some i \<Rightarrow> values_update (headerOffset + i + 1) 1 [st, subId] w'
                 | None \<Rightarrow> values_append [email, st, subId] w')))"

definition updateStatusBySubscriptionId ::
  "config \<Rightarrow> string \<Rightarrow> string \<Rightarrow> world \<Rightarrow> (error + unit) \<times> world" where
  "updateStatusBySubscriptionId cfg subscriptionId st w =
     (if subscriptionId = [] \<or> st = [] then (Inr (), w)
      else case getSheetsClient cfg of
             Inl e \<Rightarrow> (Inl e, w)
           | Inr _ \<Rightarrow>
              (case values_get 3 w of
                 (Inl e, w') \<Rightarrow> (Inl e, w')
               | (Inr allRows, w') \<Rightarrow>
                  (let rows = getDataRows allRows;
                       headerOffset = length allRows - length rows;
                       subId = trim subscriptionId
                   in case first_index (\<lambda>r. colC r = subId) rows of
                        Some i \<Rightarrow> values_update (headerOffset + i + 1) 1 [st] w'
                      | None \<Rightarrow> (Inr (), w'))))"

section \<open>Event normalizer\<close>

text \<open>
  A custom field of a Checkout Session: \<open>cf_text\<close> is \<^verbatim>\<open>field.text\<close> (absent, or
  an object whose \<^verbatim>\<open>value\<close> may be null), likewise \<open>cf_dropdown\<close>.
\<close>

record custom_field =
  cf_key :: "string option"
  cf_text :: "string option option"
  cf_dropdown :: "string option option"

record customer_details =
  cd_email :: "string option"
  cd_customer_email :: "string option"

record session =
  custom_fields :: "custom_field list option"
  customer_email :: "string option"
  session_customer_details :: "customer_details option"
  subscription :: "string option"

text \<open>\<^verbatim>\<open>field.text && field.text.value\<close>, as a possibly missing string.\<close>

definition text_value :: "custom_field \<Rightarrow> string option" where
  "text_value f = (case cf_text f of None \<Rightarrow> None | Some v \<Rightarrow> v)"

definition dropdown_value :: "custom_field \<Rightarrow> string option" where
  "dropdown_value f = (case cf_dropdown f of None \<Rightarrow> None | Some v \<Rightarrow> v)"

text \<open>
  \<^verbatim>\<open>if (x && matchKey) { const v = String(x).trim(); if (v.length > 0) return v; }\<close>:
  the value returned, if the statement returns.
\<close>

definition candidate :: "string option \<Rightarrow> bool \<Rightarrow> string option" where
  "candidate x matchKey =
     (case x of
        None \<Rightarrow> None
      | Some t \<Rightarrow> (if t \<noteq> [] \<and> matchKey \<and> trim t \<noteq> [] then Some (trim t) else None))"

text \<open>The first loop over the custom fields; \<open>fk\<close> is the configured field key.\<close>

fun match_fields :: "string \<Rightarrow> custom_field list \<Rightarrow> string option" where
  "match_fields fk [] = None"
| "match_fields fk (f # fs) =
     (let key = trimmed_or_empty (cf_key f);
          matchKey = (fk = [] \<or> key = fk)
      in case candidate (text_value f) matchKey of
           Some v \<Rightarrow> Some v
         | None \<Rightarrow>
            (case candidate (dropdown_value f) matchKey of
               Some v \<Rightarrow> Some v
             | None \<Rightarrow> match_fields fk fs))"

text \<open>The second loop, run when no field key is configured.\<close>

fun first_text_field :: "custom_field list \<Rightarrow> string option" where
  "first_text_field [] = None"
| "first_text_field (f # fs) =
     (case candidate (text_value f) True of
        Some v \<Rightarrow> Some v
      | None \<Rightarrow> first_text_field fs)"

text \<open>\<^verbatim>\<open>a ?? b\<close>\<close>

definition nullish :: "'a option \<Rightarrow> 'a option \<Rightarrow> 'a option" where
  "nullish a b = (case a of None \<Rightarrow> b | Some x \<Rightarrow> Some x)"

definition fallback_email :: "session \<Rightarrow> string option" where
  "fallback_email s =
     nullish (customer_email s)
       (nullish (case session_customer_details s of None \<Rightarrow> None | Some d \<Rightarrow> cd_email d)
          (case session_customer_details s of None \<Rightarrow> None | Some d \<Rightarrow> cd_customer_email d))"

definition getGoogleEmailFromSession :: "config \<Rightarrow> session \<Rightarrow> string option" where
  "getGoogleEmailFromSession cfg s =
     (case custom_fields s of
        None \<Rightarrow> fallback_email s
      | Some customFields \<Rightarrow>
          (if customFields = [] then fallback_email s
           else case match_fields (googleAccountFieldKey cfg) customFields of
                  Some v \<Rightarrow> Some v
                | None \<Rightarrow>
                    (if googleAccountFieldKey cfg = []
                     then (case first_text_field customFields of
                             Some v \<Rightarrow> Some v
                           | None \<Rightarrow> fallback_email s)
                     else fallback_email s)))"


section \<open>HTTP handlers\<close>

datatype body = CheckBody check_result | Received | Text string

record response =
  code :: nat
  body :: body

definition json :: "body \<Rightarrow> response" where
  "json b = \<lparr>code = 200, body = b\<rparr>"

text \<open>
  \<^verbatim>\<open>GET /check\<close>; \<open>q\<close> is \<^verbatim>\<open>req.query.email\<close>, absent or already a string. The
  \<^verbatim>\<open>catch\<close> block only logs, so an error of the lookup leaves \<^verbatim>\<open>result\<close> as it
  was initialised.
\<close>

definition check_handler :: "config \<Rightarrow> string option \<Rightarrow> world \<Rightarrow> response \<times> world" where
  "check_handler cfg q w =
     (let email = trimmed_or_empty q
      in if email = [] then (json (CheckBody \<lparr>paid = False, status = None\<rparr>), w)
         else case checkPaidUserEmail cfg email w of
                (Inl e, w') \<Rightarrow> (json (CheckBody \<lparr>paid = False, status = None\<rparr>), w')
              | (Inr r, w') \<Rightarrow>
                  (json (CheckBody \<lparr>paid = paid r,
                                    status = (if truthy (status r) then status r else None)\<rparr>), w'))"

text \<open>
  \<^verbatim>\<open>POST /webhook\<close> after the body and signature checks: the dispatch on the type of
  the verified event, with \<^verbatim>\<open>event.data?.object\<close> as the payload.
\<close>

record subscription_obj =
  sub_id :: "string option"
  sub_status :: "string option"

datatype event =
    CheckoutSessionCompleted "session option"
  | SubscriptionUpdated "subscription_obj option"
  | SubscriptionDeleted "subscription_obj option"
  | CustomerDeleted
  | OtherEvent string

fun webhook_dispatch :: "config \<Rightarrow> event \<Rightarrow> world \<Rightarrow> response \<times> world" where
  "webhook_dispatch cfg (CheckoutSessionCompleted None) w = (json Received, w)"
| "webhook_dispatch cfg (CheckoutSessionCompleted (Some s)) w =
     (let email = getGoogleEmailFromSession cfg s
      in if \<not> truthy email then (json Received, w)
         else let normalized = toLowerCase (trim (string_or_empty email))
              in if normalized = [] then (json Received, w)
                 else let subscriptionId = string_or_empty (subscription s)
                      in case upsertPaidUser cfg normalized STATUS_ACTIVE subscriptionId w of
                           (Inl e, w') \<Rightarrow> (\<lparr>code = 500, body = Text ''Append failed''\<rparr>, w')
                         | (Inr _, w') \<Rightarrow> (json Received, w'))"
| "webhook_dispatch cfg (SubscriptionUpdated None) w = (json Received, w)"
| "webhook_dispatch cfg (SubscriptionUpdated (Some sub)) w =
     (if \<not> truthy (sub_id sub) then (json Received, w)
      else let subId = string_or_empty (sub_id sub);
               st = string_or_empty (sub_status sub)
           in case updateStatusBySubscriptionId cfg subId st w of
                (Inl e, w') \<Rightarrow> (\<lparr>code = 500, body = Text ''Update failed''\<rparr>, w')
              | (Inr _, w') \<Rightarrow> (json Received, w'))"
| "webhook_dispatch cfg (SubscriptionDeleted None) w = (json Received, w)"
| "webhook_dispatch cfg (SubscriptionDeleted (Some sub)) w =
     (if \<not> truthy (sub_id sub) then (json Received, w)
      else let subId = string_or_empty (sub_id sub)
           in case updateStatusBySubscriptionId cfg subId ''canceled'' w of
                (Inl e, w') \<Rightarrow> (\<lparr>code = 500, body = Text ''Update failed''\<rparr>, w')
              | (Inr _, w') \<Rightarrow> (json Received, w'))"
| "webhook_dispatch cfg CustomerDeleted w = (json Received, w)"
| "webhook_dispatch cfg (OtherEvent t) w = (json Received, w)"


section \<open>Auxiliary notions for the statements\<close>

text \<open>
  The configuration is complete and no coming call of the store is scheduled to throw.
\<close>

definition healthy :: "config \<Rightarrow> world \<Rightarrow> bool" where
  "healthy cfg w = (getSheetsClient cfg = Inr () \<and> True \<notin> set (faults w))"

text \<open>A complete configuration with no custom-field key, used in the examples.\<close>

definition example_config :: config where
  "example_config =
     \<lparr>stripeWebhookSecret = Some ''whsec_1'', spreadsheetId = Some ''sheet_1'',
      credentialsJson = Some ''{}'', credentialsValid = True, googleAccountFieldKey = []\<rparr>"

definition sheet :: "row list \<Rightarrow> world" where
  "sheet g = \<lparr>grid = g, faults = [], calls = []\<rparr>"

section \<open>Basic facts\<close>

lemma trim_Nil [simp]: "trim [] = []"
  by (simp add: trim_def)

lemma toLowerCase_Nil [simp]: "toLowerCase [] = []"
  by (simp add: toLowerCase_def)

lemma toLowerCase_eq_Nil [simp]: "toLowerCase s = [] \<longleftrightarrow> s = []"
  by (simp add: toLowerCase_def)

lemma trimmed_or_empty_Some [simp]: "trimmed_or_empty (Some s) = trim s"
  by (simp add: trimmed_or_empty_def)

lemma trimmed_or_empty_None [simp]: "trimmed_or_empty None = []"
  by (simp add: trimmed_or_empty_def)

lemma healthy_example [simp]: "healthy example_config (sheet g)"
  by (simp add: healthy_def example_config_def sheet_def getSheetsClient_def)

lemma grid_sheet [simp]: "grid (sheet g) = g"
  by (simp add: sheet_def)

subsection \<open>Reading a range narrower than the sheet\<close>

lemma cell_take: "i < n \<Longrightarrow> cell (take n r) i = cell r i"
  by (simp add: cell_def)

lemma colA_take [simp]: "0 < n \<Longrightarrow> colA (take n r) = colA r"
  by (simp add: colA_def cell_take)

lemma colB_take [simp]: "1 < n \<Longrightarrow> colB (take n r) = colB r"
  by (simp add: colB_def cell_take)

lemma colC_take [simp]: "2 < n \<Longrightarrow> colC (take n r) = colC r"
  by (simp add: colC_def cell_take)

lemma row_result_take [simp]: "1 < n \<Longrightarrow> row_result (take n r) = row_result r"
  by (simp add: row_result_def)

lemma first_cell_lower_take [simp]:
  "0 < n \<Longrightarrow> first_cell_lower (map (take n) g) = first_cell_lower g"
  by (cases g) (simp_all add: first_cell_lower_def cell_take)

lemma getDataRows_take:
  "0 < n \<Longrightarrow> getDataRows (map (take n) g) = map (take n) (getDataRows g)"
  by (simp add: getDataRows_def drop_map)

lemma getDataRows_header:
  "str_includes (toLowerCase (string_or_empty (cell h 0))) ''email'' \<Longrightarrow>
   getDataRows (h # rest) = rest"
  by (simp add: getDataRows_def first_cell_lower_def)

lemma getDataRows_no_header:
  "\<not> str_includes (first_cell_lower g) ''email'' \<Longrightarrow> getDataRows g = g"
  by (simp add: getDataRows_def)

subsection \<open>The scanning loops\<close>

lemma first_index_map: "first_index P (map f xs) = first_index (\<lambda>x. P (f x)) xs"
  by (induction xs) simp_all

lemma first_index_None: "first_index P xs = None \<longleftrightarrow> (\<forall>x\<in>set xs. \<not> P x)"
  by (induction xs) simp_all

lemma first_index_Some:
  "first_index P xs = Some i \<Longrightarrow> i < length xs \<and> P (xs ! i) \<and> (\<forall>j<i. \<not> P (xs ! j))"
proof (induction xs arbitrary: i)
  case Nil
  then show ?case by simp
next
  case (Cons x xs)
  show ?case
  proof (cases "P x")
    case True
    with Cons.prems show ?thesis by simp
  next
    case False
    with Cons.prems obtain k where k: "first_index P xs = Some k" "i = Suc k"
      by auto
    from Cons.IH [OF k(1)] False k(2) show ?thesis
      by (auto simp: less_Suc_eq_0_disj)
  qed
qed

lemma scan_email_first_index:
  "scan_email n rows =
     (case first_index (\<lambda>r. toLowerCase (colA r) = n) rows of
        None \<Rightarrow> \<lparr>paid = False, status = None\<rparr>
      | Some i \<Rightarrow> row_result (rows ! i))"
  by (induction rows) (auto split: option.splits)

lemma scan_email_take [simp]:
  "1 < n \<Longrightarrow> scan_email e (map (take n) rows) = scan_email e rows"
  by (induction rows) simp_all

subsection \<open>Store calls that go through\<close>

lemma request_ok:
  "True \<notin> set (faults w) \<Longrightarrow>
   request c w = (True, w\<lparr>faults := tl (faults w), calls := calls w @ [c]\<rparr>)"
  by (cases "faults w") (auto simp: request_def)

lemma tl_no_fault: "True \<notin> set (faults w) \<Longrightarrow> True \<notin> set (tl (faults w))"
  by (cases "faults w") auto

lemma values_get_ok:
  "True \<notin> set (faults w) \<Longrightarrow>
   values_get n w =
     (Inr (map (take n) (grid w)), w\<lparr>faults := tl (faults w), calls := calls w @ [Get n]\<rparr>)"
  by (simp add: values_get_def request_ok)

lemma values_update_ok:
  "True \<notin> set (faults w) \<Longrightarrow> 0 < r \<Longrightarrow>
   values_update r c vs w =
     (Inr (), w\<lparr>faults := tl (faults w), calls := calls w @ [Update r c vs],
                grid := write_cells r c vs (grid w)\<rparr>)"
  by (simp add: values_update_def request_ok)

lemma values_append_ok:
  "True \<notin> set (faults w) \<Longrightarrow>
   values_append vs w =
     (Inr (), w\<lparr>faults := tl (faults w), calls := calls w @ [Append vs],
                grid := grid w @ [vs]\<rparr>)"
  by (simp add: values_append_def request_ok)

lemma write_cells_in_range:
  "0 < r \<Longrightarrow> r \<le> length g \<Longrightarrow>
   write_cells r c vs g = g[r - 1 := write_row c vs (g ! (r - 1))]"
  by (simp add: write_cells_def nth_append)

subsection \<open>The three operations on a healthy store\<close>

lemma checkPaidUserEmail_ok:
  assumes "healthy cfg w" and "toLowerCase (trim email) \<noteq> []"
  shows "checkPaidUserEmail cfg email w =
     (Inr (scan_email (toLowerCase (trim email)) (getDataRows (grid w))),
      w\<lparr>faults := tl (faults w), calls := calls w @ [Get 2]\<rparr>)"
  using assms
  by (simp add: checkPaidUserEmail_def healthy_def values_get_ok getDataRows_take)

lemma upsertPaidUser_ok:
  assumes "healthy cfg w"
  shows "upsertPaidUser cfg email st sid w =
     (Inr (),
      case first_index (\<lambda>r. toLowerCase (colA r) = toLowerCase (trim email))
             (getDataRows (grid w)) of
        Some i \<Rightarrow>
          w\<lparr>faults := tl (tl (faults w)),
            calls := calls w @
              [Get 3,
               Update (length (grid w) - length (getDataRows (grid w)) + i + 1) 1 [st, trim sid]],
            grid := write_cells (length (grid w) - length (getDataRows (grid w)) + i + 1) 1
                      [st, trim sid] (grid w)\<rparr>
      | None \<Rightarrow>
          w\<lparr>faults := tl (tl (faults w)),
            calls := calls w @ [Get 3, Append [email, st, trim sid]],
            grid := grid w @ [[email, st, trim sid]]\<rparr>)"
  using assms
  by (auto simp: upsertPaidUser_def healthy_def values_get_ok getDataRows_take first_index_map
      values_update_ok values_append_ok tl_no_fault Let_def split: option.splits)

lemma updateStatusBySubscriptionId_ok:
  assumes "healthy cfg w" and "sid \<noteq> []" and "st \<noteq> []"
  shows "updateStatusBySubscriptionId cfg sid st w =
     (Inr (),
      case first_index (\<lambda>r. colC r = trim sid) (getDataRows (grid w)) of
        Some i \<Rightarrow>
          w\<lparr>faults := tl (tl (faults w)),
            calls := calls w @
              [Get 3, Update (length (grid w) - length (getDataRows (grid w)) + i + 1) 1 [st]],
            grid := write_cells (length (grid w) - length (getDataRows (grid w)) + i + 1) 1
                      [st] (grid w)\<rparr>
      | None \<Rightarrow> w\<lparr>faults := tl (faults w), calls := calls w @ [Get 3]\<rparr>)"
  using assms
  by (auto simp: updateStatusBySubscriptionId_def healthy_def values_get_ok getDataRows_take
      first_index_map values_update_ok tl_no_fault Let_def split: option.splits)

section \<open>Paid-status query: store failure and legacy rows\<close>

text \<open>
  Claim C7. \<^verbatim>\<open>GET /check\<close> always answers with status 200, and whenever the lookup
  \<^verbatim>\<open>checkPaidUserEmail\<close> throws (the client cannot be built, or the read of the
  store fails) the answer is exactly \<^verbatim>\<open>{paid: false}\<close>, with no status field.
\<close>

theorem check_handler_absorbs_failure:
  "code (fst (check_handler cfg q w)) = 200
   \<and> (fst (checkPaidUserEmail cfg (trimmed_or_empty q) w) = Inl e \<longrightarrow>
        fst (check_handler cfg q w) = json (CheckBody \<lparr>paid = False, status = None\<rparr>))"
  by (auto simp: check_handler_def json_def Let_def split: prod.splits sum.splits)

text \<open>
  The record of \<^verbatim>\<open>a@b.com\<close> is active, the read throws, and the answer is
  \<^verbatim>\<open>{paid: false}\<close>.
\<close>

theorem check_handler_absorbs_failure_witness:
  "fst (checkPaidUserEmail example_config (trimmed_or_empty (Some ''a@b.com''))
          \<lparr>grid = [[''a@b.com'', ''active'', ''sub_1'']], faults = [True], calls = []\<rparr>)
     = Inl StoreFailure
   \<and> fst (check_handler example_config (Some ''a@b.com'')
          \<lparr>grid = [[''a@b.com'', ''active'', ''sub_1'']], faults = [True], calls = []\<rparr>)
       = \<lparr>code = 200, body = CheckBody \<lparr>paid = False, status = None\<rparr>\<rparr>"
proof -
  let ?w = "\<lparr>grid = [[''a@b.com'', ''active'', ''sub_1'']], faults = [True], calls = []\<rparr>"
  have h: "fst (checkPaidUserEmail example_config (trimmed_or_empty (Some ''a@b.com'')) ?w)
             = Inl StoreFailure"
    by code_simp
  from check_handler_absorbs_failure [of example_config "Some ''a@b.com''" ?w StoreFailure] h
  show ?thesis by (simp add: json_def)
qed

text \<open>
  Among the rows that \<^verbatim>\<open>getDataRows\<close> keeps, the legacy rule holds: when the scan
  stops at a row whose status cell is missing or empty, the query on a non-empty email
  answers \<^verbatim>\<open>{paid: true, status: "active"}\<close>.
\<close>

lemma legacy_data_row_is_active:
  assumes "healthy cfg w"
    and "toLowerCase (trim email) \<noteq> []"
    and "first_index (\<lambda>r. toLowerCase (colA r) = toLowerCase (trim email))
           (getDataRows (grid w)) = Some i"
    and "cell (getDataRows (grid w) ! i) 1 = None \<or> cell (getDataRows (grid w) ! i) 1 = Some []"
  shows "fst (checkPaidUserEmail cfg email w) = Inr \<lparr>paid = True, status = Some ''active''\<rparr>"
proof -
  from assms(4) have "colB (getDataRows (grid w) ! i) = []"
    by (auto simp: colB_def)
  then have "row_result (getDataRows (grid w) ! i) = \<lparr>paid = True, status = Some ''active''\<rparr>"
    by (simp add: row_result_def STATUS_ACTIVE_def toLowerCase_def lower_char_def)
  with assms(1-3) show ?thesis
    by (simp add: checkPaidUserEmail_ok scan_email_first_index)
qed

text \<open>
  A sheet with a header, where the first data row is a record without a status cell,
  queried with other case and a leading blank.
\<close>

lemma legacy_data_row_is_active_example:
  "healthy example_config (sheet [[''Email'', ''Status''], [''old@b.com''], [''x@y.com'', '''']])
   \<and> toLowerCase (trim '' Old@B.com'') \<noteq> []
   \<and> first_index (\<lambda>r. toLowerCase (colA r) = toLowerCase (trim '' Old@B.com''))
        (getDataRows (grid (sheet [[''Email'', ''Status''], [''old@b.com''], [''x@y.com'', '''']])))
       = Some 0
   \<and> cell (getDataRows (grid (sheet [[''Email'', ''Status''], [''old@b.com''],
                                      [''x@y.com'', '''']])) ! 0) 1 = None
   \<and> fst (checkPaidUserEmail example_config '' Old@B.com''
        (sheet [[''Email'', ''Status''], [''old@b.com''], [''x@y.com'', '''']]))
       = Inr \<lparr>paid = True, status = Some ''active''\<rparr>"
proof -
  let ?w = "sheet [[''Email'', ''Status''], [''old@b.com''], [''x@y.com'', '''']]"
  have h1: "healthy example_config ?w" by simp
  have h2: "toLowerCase (trim '' Old@B.com'') \<noteq> []" by code_simp
  have h3: "first_index (\<lambda>r. toLowerCase (colA r) = toLowerCase (trim '' Old@B.com''))
        (getDataRows (grid ?w)) = Some 0" by code_simp
  have h4: "cell (getDataRows (grid ?w) ! 0) 1 = None" by code_simp
  from legacy_data_row_is_active [OF h1 h2 h3 disjI1 [OF h4]] h1 h2 h3 h4
  show ?thesis by blast
qed

text \<open>
  Claim C4 says that the query answers \<^verbatim>\<open>{paid: true, status: "active"}\<close> whenever
  the row of the queried email has a missing or empty status cell. On a sheet without a
  header whose first row is such a legacy record of \<^verbatim>\<open>myemail@gmail.com\<close>, column A
  only, \<^verbatim>\<open>getDataRows\<close> takes the row for a header: the query answers
  \<^verbatim>\<open>{paid: false}\<close>, also through \<^verbatim>\<open>GET /check\<close>, and likewise when the status
  cell is there and empty.
\<close>

theorem legacy_first_row_taken_for_header:
  "toLowerCase (colA [''myemail@gmail.com'']) = toLowerCase (trim ''myemail@gmail.com'')
   \<and> cell [''myemail@gmail.com''] 1 = None
   \<and> getDataRows [[''myemail@gmail.com'']] = []
   \<and> checkPaidUserEmail example_config ''myemail@gmail.com'' (sheet [[''myemail@gmail.com'']])
       = (Inr \<lparr>paid = False, status = None\<rparr>,
          \<lparr>grid = [[''myemail@gmail.com'']], faults = [], calls = [Get 2]\<rparr>)
   \<and> fst (check_handler example_config (Some ''myemail@gmail.com'')
            (sheet [[''myemail@gmail.com'']]))
       = \<lparr>code = 200, body = CheckBody \<lparr>paid = False, status = None\<rparr>\<rparr>
   \<and> fst (checkPaidUserEmail example_config ''myemail@gmail.com''
            (sheet [[''myemail@gmail.com'', '''', ''sub_1'']]))
       = Inr \<lparr>paid = False, status = None\<rparr>"
  by code_simp

section \<open>Status updates by subscription id\<close>

text \<open>
  Claim C10. Called with an empty status, \<^verbatim>\<open>updateStatusBySubscriptionId\<close> returns
  at once: no error, and the world is untouched (same grid, no call of the store logged,
  the fault schedule not consumed). The \<^verbatim>\<open>customer.subscription.updated\<close> branch of
  the webhook reaches that case when the payload has no status or an empty one, and
  answers \<^verbatim>\<open>{received: true}\<close>.
\<close>

theorem updateStatus_empty_status_returns_early:
  "updateStatusBySubscriptionId cfg subscriptionId [] w = (Inr (), w)
   \<and> webhook_dispatch cfg (SubscriptionUpdated (Some \<lparr>sub_id = i, sub_status = None\<rparr>)) w
       = (json Received, w)
   \<and> webhook_dispatch cfg (SubscriptionUpdated (Some \<lparr>sub_id = i, sub_status = Some []\<rparr>)) w
       = (json Received, w)"
  by (simp add: updateStatusBySubscriptionId_def string_or_empty_def)

text \<open>A subscription without a status, on a sheet that holds its record.\<close>

theorem updateStatus_empty_status_returns_early_witness:
  "updateStatusBySubscriptionId example_config ''sub_1'' []
       (sheet [[''a@b.com'', ''active'', ''sub_1'']])
     = (Inr (), \<lparr>grid = [[''a@b.com'', ''active'', ''sub_1'']], faults = [], calls = []\<rparr>)
   \<and> webhook_dispatch example_config
        (SubscriptionUpdated (Some \<lparr>sub_id = Some ''sub_1'', sub_status = None\<rparr>))
        (sheet [[''a@b.com'', ''active'', ''sub_1'']])
      = (\<lparr>code = 200, body = Received\<rparr>,
         \<lparr>grid = [[''a@b.com'', ''active'', ''sub_1'']], faults = [], calls = []\<rparr>)"
  using updateStatus_empty_status_returns_early
    [of example_config "''sub_1''" "sheet [[''a@b.com'', ''active'', ''sub_1'']]" "Some ''sub_1''"]
  by (simp add: sheet_def json_def)

text \<open>
  Claim C3. With a non-empty status, when no data row has the trimmed subscription id in
  column C (the column read as the scan reads it, trimmed), the call raises no error and
  leaves the grid as it was; the only call of the store is the read, and none at all
  when the subscription id itself is empty.
\<close>

theorem updateStatus_unknown_subscription_noop:
  assumes "healthy cfg w" and "st \<noteq> []"
    and "\<forall>r\<in>set (getDataRows (grid w)). colC r \<noteq> trim subscriptionId"
  shows "fst (updateStatusBySubscriptionId cfg subscriptionId st w) = Inr ()
     \<and> grid (snd (updateStatusBySubscriptionId cfg subscriptionId st w)) = grid w
     \<and> calls (snd (updateStatusBySubscriptionId cfg subscriptionId st w))
         = calls w @ (if subscriptionId = [] then [] else [Get 3])"
proof (cases "subscriptionId = []")
  case True
  then show ?thesis
    by (simp add: updateStatusBySubscriptionId_def)
next
  case False
  from assms(3)
  have "first_index (\<lambda>r. colC r = trim subscriptionId) (getDataRows (grid w)) = None"
    by (simp add: first_index_None)
  with False assms(1,2) show ?thesis
    by (simp add: updateStatusBySubscriptionId_ok)
qed

text \<open>Cancelling \<^verbatim>\<open>sub_2\<close> on a sheet that only knows \<^verbatim>\<open>sub_1\<close>.\<close>

theorem updateStatus_unknown_subscription_noop_witness:
  "healthy example_config
     (sheet [[''Email'', ''Status'', ''Sub''], [''a@b.com'', ''active'', ''sub_1'']])
   \<and> ''canceled'' \<noteq> []
   \<and> updateStatusBySubscriptionId example_config ''sub_2'' ''canceled''
        (sheet [[''Email'', ''Status'', ''Sub''], [''a@b.com'', ''active'', ''sub_1'']])
      = (Inr (), \<lparr>grid = [[''Email'', ''Status'', ''Sub''], [''a@b.com'', ''active'', ''sub_1'']],
                  faults = [], calls = [Get 3]\<rparr>)"
proof -
  let ?w = "sheet [[''Email'', ''Status'', ''Sub''], [''a@b.com'', ''active'', ''sub_1'']]"
  have h1: "healthy example_config ?w" by simp
  have h2: "''canceled'' \<noteq> []" by simp
  have h3: "\<forall>r\<in>set (getDataRows (grid ?w)). colC r \<noteq> trim ''sub_2''" by code_simp
  have e: "snd (updateStatusBySubscriptionId example_config ''sub_2'' ''canceled'' ?w)
      = \<lparr>grid = [[''Email'', ''Status'', ''Sub''], [''a@b.com'', ''active'', ''sub_1'']],
         faults = [], calls = [Get 3]\<rparr>" by code_simp
  from updateStatus_unknown_subscription_noop [OF h1 h2 h3] have
    "fst (updateStatusBySubscriptionId example_config ''sub_2'' ''canceled'' ?w) = Inr ()"
    by simp
  with e h1 h2 show ?thesis
    by (simp add: prod_eq_iff)
qed

section \<open>The header heuristic\<close>

text \<open>
  Claim C8. On a sheet without a header whose first row is the record of an email that
  contains \<^verbatim>\<open>email\<close> (in any case), \<^verbatim>\<open>getDataRows\<close> drops that row as a header;
  when no other row holds the email, the query on it answers \<^verbatim>\<open>{paid: false}\<close>
  although the row is there.
\<close>

theorem data_row_taken_for_header:
  assumes "healthy cfg w"
    and "toLowerCase (trim email) \<noteq> []"
    and "grid w = r # rest"
    and "toLowerCase (colA r) = toLowerCase (trim email)"
    and "str_includes (toLowerCase (string_or_empty (cell r 0))) ''email''"
    and "\<forall>x\<in>set rest. toLowerCase (colA x) \<noteq> toLowerCase (trim email)"
  shows "getDataRows (grid w) = rest
     \<and> fst (checkPaidUserEmail cfg email w) = Inr \<lparr>paid = False, status = None\<rparr>"
proof -
  from assms(3,5) have d: "getDataRows (grid w) = rest"
    by (simp add: getDataRows_header)
  from assms(6)
  have "first_index (\<lambda>x. toLowerCase (colA x) = toLowerCase (trim email)) rest = None"
    by (simp add: first_index_None)
  with d assms(1,2) show ?thesis
    by (simp add: checkPaidUserEmail_ok scan_email_first_index)
qed

text \<open>The active record of \<^verbatim>\<open>myemail@gmail.com\<close> as the only row of the sheet.\<close>

theorem data_row_taken_for_header_witness:
  "healthy example_config (sheet [[''myemail@gmail.com'', ''active'', ''sub_1'']])
   \<and> toLowerCase (trim ''myemail@gmail.com'') \<noteq> []
   \<and> grid (sheet [[''myemail@gmail.com'', ''active'', ''sub_1'']])
       = [''myemail@gmail.com'', ''active'', ''sub_1''] # []
   \<and> toLowerCase (colA [''myemail@gmail.com'', ''active'', ''sub_1''])
       = toLowerCase (trim ''myemail@gmail.com'')
   \<and> str_includes (toLowerCase (string_or_empty
         (cell [''myemail@gmail.com'', ''active'', ''sub_1''] 0))) ''email''
   \<and> getDataRows (grid (sheet [[''myemail@gmail.com'', ''active'', ''sub_1'']])) = []
   \<and> fst (checkPaidUserEmail example_config ''myemail@gmail.com''
            (sheet [[''myemail@gmail.com'', ''active'', ''sub_1'']]))
       = Inr \<lparr>paid = False, status = None\<rparr>"
proof -
  let ?r = "[''myemail@gmail.com'', ''active'', ''sub_1'']"
  have h1: "healthy example_config (sheet [?r])" by simp
  have h2: "toLowerCase (trim ''myemail@gmail.com'') \<noteq> []" by code_simp
  have h3: "grid (sheet [?r]) = ?r # []" by simp
  have h4: "toLowerCase (colA ?r) = toLowerCase (trim ''myemail@gmail.com'')" by code_simp
  have h5: "str_includes (toLowerCase (string_or_empty (cell ?r 0))) ''email''" by code_simp
  have h6: "\<forall>x\<in>set []. toLowerCase (colA x) \<noteq> toLowerCase (trim ''myemail@gmail.com'')"
    by simp
  from data_row_taken_for_header [OF h1 h2 h3 h4 h5 h6] h1 h2 h3 h4 h5
  show ?thesis by blast
qed

subsection \<open>Row addressing with and without a header\<close>

lemma header_offset_header:
  "str_includes (toLowerCase (string_or_empty (cell h 0))) ''email'' \<Longrightarrow>
   length (h # rest) - length (getDataRows (h # rest)) = 1"
  by (simp add: getDataRows_header)

lemma check_with_header:
  assumes "healthy cfg w" and "grid w = h # rest"
    and "str_includes (toLowerCase (string_or_empty (cell h 0))) ''email''"
    and "toLowerCase (trim email) \<noteq> []"
  shows "fst (checkPaidUserEmail cfg email w) = Inr (scan_email (toLowerCase (trim email)) rest)"
  using assms by (simp add: checkPaidUserEmail_ok getDataRows_header)

lemma upsert_with_header:
  assumes "healthy cfg w" and "grid w = h # rest"
    and "str_includes (toLowerCase (string_or_empty (cell h 0))) ''email''"
    and "first_index (\<lambda>r. toLowerCase (colA r) = toLowerCase (trim email)) rest = Some i"
  shows "calls (snd (upsertPaidUser cfg email st sid w))
           = calls w @ [Get 3, Update (i + 2) 1 [st, trim sid]]"
    and "grid (snd (upsertPaidUser cfg email st sid w))
           = h # rest[i := write_row 1 [st, trim sid] (rest ! i)]"
proof -
  from first_index_Some [OF assms(4)] have i: "i < length rest" by simp
  from assms show "calls (snd (upsertPaidUser cfg email st sid w))
           = calls w @ [Get 3, Update (i + 2) 1 [st, trim sid]]"
    by (simp add: upsertPaidUser_ok getDataRows_header)
  from assms i show "grid (snd (upsertPaidUser cfg email st sid w))
           = h # rest[i := write_row 1 [st, trim sid] (rest ! i)]"
    by (simp add: upsertPaidUser_ok getDataRows_header write_cells_in_range)
qed

lemma upsert_with_header_append:
  assumes "healthy cfg w" and "grid w = h # rest"
    and "str_includes (toLowerCase (string_or_empty (cell h 0))) ''email''"
    and "first_index (\<lambda>r. toLowerCase (colA r) = toLowerCase (trim email)) rest = None"
  shows "grid (snd (upsertPaidUser cfg email st sid w)) = h # rest @ [[email, st, trim sid]]"
  using assms by (simp add: upsertPaidUser_ok getDataRows_header)

lemma update_with_header:
  assumes "healthy cfg w" and "grid w = h # rest"
    and "str_includes (toLowerCase (string_or_empty (cell h 0))) ''email''"
    and "sid \<noteq> []" and "st \<noteq> []"
    and "first_index (\<lambda>r. colC r = trim sid) rest = Some i"
  shows "calls (snd (updateStatusBySubscriptionId cfg sid st w))
           = calls w @ [Get 3, Update (i + 2) 1 [st]]"
    and "grid (snd (updateStatusBySubscriptionId cfg sid st w))
           = h # rest[i := write_row 1 [st] (rest ! i)]"
proof -
  from first_index_Some [OF assms(6)] have i: "i < length rest" by simp
  from assms show "calls (snd (updateStatusBySubscriptionId cfg sid st w))
           = calls w @ [Get 3, Update (i + 2) 1 [st]]"
    by (simp add: updateStatusBySubscriptionId_ok getDataRows_header)
  from assms i show "grid (snd (updateStatusBySubscriptionId cfg sid st w))
           = h # rest[i := write_row 1 [st] (rest ! i)]"
    by (simp add: updateStatusBySubscriptionId_ok getDataRows_header write_cells_in_range)
qed

lemma upsert_without_header:
  assumes "healthy cfg w"
    and "\<not> str_includes (first_cell_lower (grid w)) ''email''"
    and "first_index (\<lambda>r. toLowerCase (colA r) = toLowerCase (trim email)) (grid w) = Some i"
  shows "calls (snd (upsertPaidUser cfg email st sid w))
           = calls w @ [Get 3, Update (i + 1) 1 [st, trim sid]]"
    and "grid (snd (upsertPaidUser cfg email st sid w))
           = (grid w)[i := write_row 1 [st, trim sid] (grid w ! i)]"
proof -
  from first_index_Some [OF assms(3)] have i: "i < length (grid w)" by simp
  from assms show "calls (snd (upsertPaidUser cfg email st sid w))
           = calls w @ [Get 3, Update (i + 1) 1 [st, trim sid]]"
    by (simp add: upsertPaidUser_ok getDataRows_no_header)
  from assms i show "grid (snd (upsertPaidUser cfg email st sid w))
           = (grid w)[i := write_row 1 [st, trim sid] (grid w ! i)]"
    by (simp add: upsertPaidUser_ok getDataRows_no_header write_cells_in_range)
qed

lemma update_without_header:
  assumes "healthy cfg w"
    and "\<not> str_includes (first_cell_lower (grid w)) ''email''"
    and "sid \<noteq> []" and "st \<noteq> []"
    and "first_index (\<lambda>r. colC r = trim sid) (grid w) = Some i"
  shows "calls (snd (updateStatusBySubscriptionId cfg sid st w))
           = calls w @ [Get 3, Update (i + 1) 1 [st]]"
    and "grid (snd (updateStatusBySubscriptionId cfg sid st w))
           = (grid w)[i := write_row 1 [st] (grid w ! i)]"
proof -
  from first_index_Some [OF assms(5)] have i: "i < length (grid w)" by simp
  from assms show "calls (snd (updateStatusBySubscriptionId cfg sid st w))
           = calls w @ [Get 3, Update (i + 1) 1 [st]]"
    by (simp add: updateStatusBySubscriptionId_ok getDataRows_no_header)
  from assms i show "grid (snd (updateStatusBySubscriptionId cfg sid st w))
           = (grid w)[i := write_row 1 [st] (grid w ! i)]"
    by (simp add: updateStatusBySubscriptionId_ok getDataRows_no_header write_cells_in_range)
qed

text \<open>
  Claim C6. On a sheet whose first row has \<^verbatim>\<open>email\<close> (in any case) within its first
  cell, the data rows are the rows after it. The query scans only those; an upsert
  that finds the email at position \<open>i\<close> of the data rows writes B and C of sheet row
  \<open>i + 2\<close> and leaves the first row alone, and appends when only the first row would
  have matched; a status update that finds the subscription id at position \<open>i\<close> writes
  B of sheet row \<open>i + 2\<close>. On the same rows without the header row both write to sheet
  row \<open>i + 1\<close>.
\<close>

theorem header_row_excluded:
  assumes "healthy cfg w" and "grid w = h # rest"
    and "str_includes (toLowerCase (string_or_empty (cell h 0))) ''email''"
  shows "getDataRows (grid w) = rest
     \<and> (toLowerCase (trim email) \<noteq> [] \<longrightarrow>
          fst (checkPaidUserEmail cfg email w)
            = Inr (scan_email (toLowerCase (trim email)) rest))
     \<and> (\<forall>i. first_index (\<lambda>r. toLowerCase (colA r) = toLowerCase (trim email)) rest = Some i \<longrightarrow>
          calls (snd (upsertPaidUser cfg email st sid w))
            = calls w @ [Get 3, Update (i + 2) 1 [st, trim sid]]
          \<and> grid (snd (upsertPaidUser cfg email st sid w))
            = h # rest[i := write_row 1 [st, trim sid] (rest ! i)])
     \<and> (first_index (\<lambda>r. toLowerCase (colA r) = toLowerCase (trim email)) rest = None \<longrightarrow>
          grid (snd (upsertPaidUser cfg email st sid w)) = h # rest @ [[email, st, trim sid]])
     \<and> (\<forall>i. subscriptionId \<noteq> [] \<and> st \<noteq> []
            \<and> first_index (\<lambda>r. colC r = trim subscriptionId) rest = Some i \<longrightarrow>
          calls (snd (updateStatusBySubscriptionId cfg subscriptionId st w))
            = calls w @ [Get 3, Update (i + 2) 1 [st]]
          \<and> grid (snd (updateStatusBySubscriptionId cfg subscriptionId st w))
            = h # rest[i := write_row 1 [st] (rest ! i)])
     \<and> (\<forall>v i. healthy cfg v \<and> grid v = rest
            \<and> \<not> str_includes (first_cell_lower rest) ''email''
            \<and> first_index (\<lambda>r. toLowerCase (colA r) = toLowerCase (trim email)) rest = Some i \<longrightarrow>
          calls (snd (upsertPaidUser cfg email st sid v))
            = calls v @ [Get 3, Update (i + 1) 1 [st, trim sid]])
     \<and> (\<forall>v i. healthy cfg v \<and> grid v = rest
            \<and> \<not> str_includes (first_cell_lower rest) ''email''
            \<and> subscriptionId \<noteq> [] \<and> st \<noteq> []
            \<and> first_index (\<lambda>r. colC r = trim subscriptionId) rest = Some i \<longrightarrow>
          calls (snd (updateStatusBySubscriptionId cfg subscriptionId st v))
            = calls v @ [Get 3, Update (i + 1) 1 [st]])"
proof (intro conjI allI impI)
  show "getDataRows (grid w) = rest"
    using assms by (simp add: getDataRows_header)
next
  assume "toLowerCase (trim email) \<noteq> []"
  with assms show "fst (checkPaidUserEmail cfg email w)
            = Inr (scan_email (toLowerCase (trim email)) rest)"
    by (rule check_with_header)
next
  fix i
  assume "first_index (\<lambda>r. toLowerCase (colA r) = toLowerCase (trim email)) rest = Some i"
  with assms show "calls (snd (upsertPaidUser cfg email st sid w))
            = calls w @ [Get 3, Update (i + 2) 1 [st, trim sid]]"
    and "grid (snd (upsertPaidUser cfg email st sid w))
            = h # rest[i := write_row 1 [st, trim sid] (rest ! i)]"
    by (rule upsert_with_header)+
next
  assume "first_index (\<lambda>r. toLowerCase (colA r) = toLowerCase (trim email)) rest = None"
  with assms show "grid (snd (upsertPaidUser cfg email st sid w)) = h # rest @ [[email, st, trim sid]]"
    by (rule upsert_with_header_append)
next
  fix i
  assume a: "subscriptionId \<noteq> [] \<and> st \<noteq> []
            \<and> first_index (\<lambda>r. colC r = trim subscriptionId) rest = Some i"
  with assms show "calls (snd (updateStatusBySubscriptionId cfg subscriptionId st w))
            = calls w @ [Get 3, Update (i + 2) 1 [st]]"
    by (simp add: update_with_header)
  from a assms show "grid (snd (updateStatusBySubscriptionId cfg subscriptionId st w))
            = h # rest[i := write_row 1 [st] (rest ! i)]"
    by (simp add: update_with_header)
next
  fix v i
  assume "healthy cfg v \<and> grid v = rest
            \<and> \<not> str_includes (first_cell_lower rest) ''email''
            \<and> first_index (\<lambda>r. toLowerCase (colA r) = toLowerCase (trim email)) rest = Some i"
  then show "calls (snd (upsertPaidUser cfg email st sid v))
            = calls v @ [Get 3, Update (i + 1) 1 [st, trim sid]]"
    by (simp add: upsert_without_header)
next
  fix v i
  assume "healthy cfg v \<and> grid v = rest
            \<and> \<not> str_includes (first_cell_lower rest) ''email''
            \<and> subscriptionId \<noteq> [] \<and> st \<noteq> []
            \<and> first_index (\<lambda>r. colC r = trim subscriptionId) rest = Some i"
  then show "calls (snd (updateStatusBySubscriptionId cfg subscriptionId st v))
            = calls v @ [Get 3, Update (i + 1) 1 [st]]"
    by (simp add: update_without_header)
qed

text \<open>
  A sheet under the header \<^verbatim>\<open>Email\<close>, \<^verbatim>\<open>Status\<close>, \<^verbatim>\<open>Subscription\<close>: the record
  at position 1 of the data rows is written at sheet row 3, and at sheet row 2 once the
  header is taken away.
\<close>

theorem header_row_excluded_witness:
  "str_includes (toLowerCase (string_or_empty (cell [''Email'', ''Status'', ''Subscription''] 0)))
     ''email''
   \<and> getDataRows [[''Email'', ''Status'', ''Subscription''],
                   [''x@y.com'', ''active'', ''sub_1''],
                   [''a@b.com'', ''past_due'', ''sub_2'']]
       = [[''x@y.com'', ''active'', ''sub_1''], [''a@b.com'', ''past_due'', ''sub_2'']]
   \<and> fst (checkPaidUserEmail example_config ''a@b.com''
          (sheet [[''Email'', ''Status'', ''Subscription''],
                  [''x@y.com'', ''active'', ''sub_1''],
                  [''a@b.com'', ''past_due'', ''sub_2'']]))
       = Inr \<lparr>paid = False, status = Some ''past_due''\<rparr>
   \<and> calls (snd (upsertPaidUser example_config ''a@b.com'' ''active'' ''sub_9''
          (sheet [[''Email'', ''Status'', ''Subscription''],
                  [''x@y.com'', ''active'', ''sub_1''],
                  [''a@b.com'', ''past_due'', ''sub_2'']])))
       = [Get 3, Update 3 1 [''active'', ''sub_9'']]
   \<and> grid (snd (upsertPaidUser example_config ''a@b.com'' ''active'' ''sub_9''
          (sheet [[''Email'', ''Status'', ''Subscription''],
                  [''x@y.com'', ''active'', ''sub_1''],
                  [''a@b.com'', ''past_due'', ''sub_2'']])))
       = [[''Email'', ''Status'', ''Subscription''],
          [''x@y.com'', ''active'', ''sub_1''],
          [''a@b.com'', ''active'', ''sub_9'']]
   \<and> calls (snd (updateStatusBySubscriptionId example_config ''sub_2'' ''canceled''
          (sheet [[''Email'', ''Status'', ''Subscription''],
                  [''x@y.com'', ''active'', ''sub_1''],
                  [''a@b.com'', ''past_due'', ''sub_2'']])))
       = [Get 3, Update 3 1 [''canceled'']]
   \<and> grid (snd (updateStatusBySubscriptionId example_config ''sub_2'' ''canceled''
          (sheet [[''Email'', ''Status'', ''Subscription''],
                  [''x@y.com'', ''active'', ''sub_1''],
                  [''a@b.com'', ''past_due'', ''sub_2'']])))
       = [[''Email'', ''Status'', ''Subscription''],
          [''x@y.com'', ''active'', ''sub_1''],
          [''a@b.com'', ''canceled'', ''sub_2'']]
   \<and> calls (snd (upsertPaidUser example_config ''a@b.com'' ''active'' ''sub_9''
          (sheet [[''x@y.com'', ''active'', ''sub_1''], [''a@b.com'', ''past_due'', ''sub_2'']])))
       = [Get 3, Update 2 1 [''active'', ''sub_9'']]
   \<and> calls (snd (updateStatusBySubscriptionId example_config ''sub_2'' ''canceled''
          (sheet [[''x@y.com'', ''active'', ''sub_1''], [''a@b.com'', ''past_due'', ''sub_2'']])))
       = [Get 3, Update 2 1 [''canceled'']]"
proof -
  let ?h = "[''Email'', ''Status'', ''Subscription'']"
  let ?rest = "[[''x@y.com'', ''active'', ''sub_1''], [''a@b.com'', ''past_due'', ''sub_2'']]"
  let ?w = "sheet (?h # ?rest)"
  let ?v = "sheet ?rest"
  have h1: "healthy example_config ?w" by simp
  have h2: "grid ?w = ?h # ?rest" by simp
  have h3: "str_includes (toLowerCase (string_or_empty (cell ?h 0))) ''email''" by code_simp
  have e1: "toLowerCase (trim ''a@b.com'') \<noteq> []" by code_simp
  have e2: "scan_email (toLowerCase (trim ''a@b.com'')) ?rest
              = \<lparr>paid = False, status = Some ''past_due''\<rparr>" by code_simp
  have e3: "first_index (\<lambda>r. toLowerCase (colA r) = toLowerCase (trim ''a@b.com'')) ?rest
              = Some 1" by code_simp
  have e4: "first_index (\<lambda>r. colC r = trim ''sub_2'') ?rest = Some 1" by code_simp
  have e5: "\<not> str_includes (first_cell_lower ?rest) ''email''" by code_simp
  have e6: "trim ''sub_9'' = ''sub_9''" by code_simp
  have v1: "healthy example_config ?v \<and> grid ?v = ?rest" by simp
  have calls0: "calls ?w = []" "calls ?v = []" by (simp_all add: sheet_def)
  note T = header_row_excluded [OF h1 h2 h3, where email = "''a@b.com''" and st = "''active''"
      and sid = "''sub_9''"]
  note U = header_row_excluded [OF h1 h2 h3, where email = "''a@b.com''" and st = "''canceled''"
      and subscriptionId = "''sub_2''"]
  from T e1 e2 have c2: "fst (checkPaidUserEmail example_config ''a@b.com'' ?w)
       = Inr \<lparr>paid = False, status = Some ''past_due''\<rparr>"
    by simp
  from T e3 e6 calls0 have c3: "calls (snd (upsertPaidUser example_config ''a@b.com'' ''active'' ''sub_9'' ?w))
       = [Get 3, Update 3 1 [''active'', ''sub_9'']]"
    by simp
  from T e3 e6 have c4: "grid (snd (upsertPaidUser example_config ''a@b.com'' ''active'' ''sub_9'' ?w))
       = [?h, [''x@y.com'', ''active'', ''sub_1''], [''a@b.com'', ''active'', ''sub_9'']]"
    by (simp add: write_row_def)
  from U e4 calls0 have c5: "calls (snd (updateStatusBySubscriptionId example_config ''sub_2'' ''canceled'' ?w))
       = [Get 3, Update 3 1 [''canceled'']]"
    by simp
  from U e4 have c6: "grid (snd (updateStatusBySubscriptionId example_config ''sub_2'' ''canceled'' ?w))
       = [?h, [''x@y.com'', ''active'', ''sub_1''], [''a@b.com'', ''canceled'', ''sub_2'']]"
    by (simp add: write_row_def)
  from T v1 e5 e3 e6 calls0 have c7: "calls (snd (upsertPaidUser example_config ''a@b.com'' ''active'' ''sub_9'' ?v))
       = [Get 3, Update 2 1 [''active'', ''sub_9'']]"
    by simp
  from U v1 e5 e4 calls0 have c8: "calls (snd (updateStatusBySubscriptionId example_config ''sub_2'' ''canceled'' ?v))
       = [Get 3, Update 2 1 [''canceled'']]"
    by simp
  from T have c1: "getDataRows (?h # ?rest) = ?rest" by simp
  from h3 c1 c2 c3 c4 c5 c6 c7 c8 show ?thesis by blast
qed

section \<open>Updates in place\<close>

text \<open>
  An update of B and C does not touch the first cell of a row, so neither the header
  test nor the email of the row changes.
\<close>

lemma first_cell_write_row [simp]:
  "string_or_empty (cell (write_row (Suc c) vs r) 0) = string_or_empty (cell r 0)"
  by (cases r) (simp_all add: write_row_def cell_def string_or_empty_def)

lemma colA_write_row [simp]: "colA (write_row (Suc c) vs r) = colA r"
  by (cases r) (simp_all add: write_row_def cell_def colA_def)

lemma first_cell_lower_update:
  "first_cell_lower (g[k := write_row (Suc c) vs (g ! k)]) = first_cell_lower g"
proof (cases g)
  case Nil
  then show ?thesis by simp
next
  case (Cons h rest)
  then show ?thesis
    by (cases k) (simp_all add: first_cell_lower_def)
qed

lemma getDataRows_nth:
  "i < length (getDataRows g) \<Longrightarrow>
   getDataRows g ! i = g ! (length g - length (getDataRows g) + i)"
  by (cases g) (auto simp: getDataRows_def)

lemma header_offset_bound:
  "i < length (getDataRows g) \<Longrightarrow> length g - length (getDataRows g) + i < length g"
  by (cases g) (auto simp: getDataRows_def)

lemma getDataRows_update:
  assumes "i < length (getDataRows g)"
  shows "getDataRows (g[length g - length (getDataRows g) + i
            := write_row (Suc c) vs (g ! (length g - length (getDataRows g) + i))])
         = (getDataRows g)[i := write_row (Suc c) vs (getDataRows g ! i)]"
proof (cases "str_includes (first_cell_lower g) ''email''")
  case False
  then have d: "getDataRows g = g"
    by (rule getDataRows_no_header)
  from False have "\<not> str_includes (first_cell_lower (g[i := write_row (Suc c) vs (g ! i)])) ''email''"
    by (simp add: first_cell_lower_update)
  then have "getDataRows (g[i := write_row (Suc c) vs (g ! i)]) = g[i := write_row (Suc c) vs (g ! i)]"
    by (rule getDataRows_no_header)
  with d show ?thesis by simp
next
  case True
  with assms obtain h rest where g: "g = h # rest"
    by (cases g) (auto simp: getDataRows_def)
  with True have h: "str_includes (toLowerCase (string_or_empty (cell h 0))) ''email''"
    by (simp add: first_cell_lower_def)
  with g show ?thesis
    by (simp add: getDataRows_header)
qed

lemma upsert_found:
  assumes "healthy cfg w"
    and "first_index (\<lambda>r. toLowerCase (colA r) = toLowerCase (trim email))
           (getDataRows (grid w)) = Some i"
  shows "getDataRows (grid (snd (upsertPaidUser cfg email st sid w)))
           = (getDataRows (grid w))[i := write_row 1 [st, trim sid] (getDataRows (grid w) ! i)]"
    and "length (grid (snd (upsertPaidUser cfg email st sid w))) = length (grid w)"
    and "calls (snd (upsertPaidUser cfg email st sid w))
           = calls w @ [Get 3, Update (length (grid w) - length (getDataRows (grid w)) + i + 1) 1
                                 [st, trim sid]]"
proof -
  let ?g = "grid w"
  let ?k = "length ?g - length (getDataRows ?g) + i"
  from first_index_Some [OF assms(2)] have i: "i < length (getDataRows ?g)"
    by simp
  from i have k: "?k < length ?g"
    by (rule header_offset_bound)
  from i have n: "getDataRows ?g ! i = ?g ! ?k"
    by (rule getDataRows_nth)
  from assms k have g': "grid (snd (upsertPaidUser cfg email st sid w))
      = ?g[?k := write_row 1 [st, trim sid] (?g ! ?k)]"
    by (simp add: upsertPaidUser_ok write_cells_in_range)
  from g' show "length (grid (snd (upsertPaidUser cfg email st sid w))) = length (grid w)"
    by simp
  from g' n getDataRows_update [OF i, of 0 "[st, trim sid]"]
  show "getDataRows (grid (snd (upsertPaidUser cfg email st sid w)))
           = (getDataRows (grid w))[i := write_row 1 [st, trim sid] (getDataRows (grid w) ! i)]"
    by simp
  from assms show "calls (snd (upsertPaidUser cfg email st sid w))
           = calls w @ [Get 3, Update (?k + 1) 1 [st, trim sid]]"
    by (simp add: upsertPaidUser_ok)
qed

text \<open>
  Among the rows that \<^verbatim>\<open>getDataRows\<close> keeps, the first duplicate wins: when the scan
  for the email stops at position \<open>i\<close> and a different position \<open>j\<close> holds the same email
  (trimmed and lower-cased), then \<open>j\<close> lies after \<open>i\<close>; the upsert makes one write, to the
  sheet row of position \<open>i\<close>, adds no row, and leaves every other kept row, the one at
  \<open>j\<close> among them, as it was. The query answers from the row at position \<open>i\<close>.
\<close>

lemma duplicate_data_rows_first_wins:
  assumes "healthy cfg w"
    and "first_index (\<lambda>r. toLowerCase (colA r) = toLowerCase (trim email))
           (getDataRows (grid w)) = Some i"
    and "j < length (getDataRows (grid w))" and "j \<noteq> i"
    and "toLowerCase (colA (getDataRows (grid w) ! j)) = toLowerCase (trim email)"
  shows "i < j
     \<and> fst (upsertPaidUser cfg email st sid w) = Inr ()
     \<and> calls (snd (upsertPaidUser cfg email st sid w))
         = calls w @ [Get 3, Update (length (grid w) - length (getDataRows (grid w)) + i + 1) 1
                               [st, trim sid]]
     \<and> length (grid (snd (upsertPaidUser cfg email st sid w))) = length (grid w)
     \<and> getDataRows (grid (snd (upsertPaidUser cfg email st sid w)))
         = (getDataRows (grid w))[i := write_row 1 [st, trim sid] (getDataRows (grid w) ! i)]
     \<and> getDataRows (grid (snd (upsertPaidUser cfg email st sid w))) ! j
         = getDataRows (grid w) ! j
     \<and> (toLowerCase (trim email) \<noteq> [] \<longrightarrow>
          fst (checkPaidUserEmail cfg email w) = Inr (row_result (getDataRows (grid w) ! i)))"
proof -
  from first_index_Some [OF assms(2)] assms(4,5) have ij: "i < j"
    by (meson linorder_neqE_nat)
  have ok: "fst (upsertPaidUser cfg email st sid w) = Inr ()"
    using assms(1) by (simp add: upsertPaidUser_ok)
  note u = upsert_found [OF assms(1,2), of st sid]
  from u(1) assms(4) have same: "getDataRows (grid (snd (upsertPaidUser cfg email st sid w))) ! j
         = getDataRows (grid w) ! j"
    by simp
  have q: "toLowerCase (trim email) \<noteq> [] \<longrightarrow>
          fst (checkPaidUserEmail cfg email w) = Inr (row_result (getDataRows (grid w) ! i))"
    using assms(1,2) by (simp add: checkPaidUserEmail_ok scan_email_first_index)
  from ij ok u same q show ?thesis
    by simp
qed

text \<open>
  Three rows, the first and the third for the same account with different statuses:
  only the first is rewritten, and the query reports the status of the first.
\<close>

lemma duplicate_data_rows_first_wins_example:
  "first_index (\<lambda>r. toLowerCase (colA r) = toLowerCase (trim ''dup@x.com''))
       (getDataRows [[''dup@x.com'', ''canceled'', ''sub_1''], [''x@y.com'', ''active'', ''sub_2''],
                     ['' Dup@X.com'', ''past_due'', ''sub_3'']]) = Some 0
   \<and> toLowerCase (colA (getDataRows [[''dup@x.com'', ''canceled'', ''sub_1''],
          [''x@y.com'', ''active'', ''sub_2''], ['' Dup@X.com'', ''past_due'', ''sub_3'']] ! 2))
       = toLowerCase (trim ''dup@x.com'')
   \<and> upsertPaidUser example_config ''dup@x.com'' ''active'' ''sub_9''
        (sheet [[''dup@x.com'', ''canceled'', ''sub_1''], [''x@y.com'', ''active'', ''sub_2''],
                ['' Dup@X.com'', ''past_due'', ''sub_3'']])
       = (Inr (),
          \<lparr>grid = [[''dup@x.com'', ''active'', ''sub_9''], [''x@y.com'', ''active'', ''sub_2''],
                   ['' Dup@X.com'', ''past_due'', ''sub_3'']],
           faults = [], calls = [Get 3, Update 1 1 [''active'', ''sub_9'']]\<rparr>)
   \<and> fst (checkPaidUserEmail example_config ''dup@x.com''
        (sheet [[''dup@x.com'', ''canceled'', ''sub_1''], [''x@y.com'', ''active'', ''sub_2''],
                ['' Dup@X.com'', ''past_due'', ''sub_3'']]))
       = Inr \<lparr>paid = False, status = Some ''canceled''\<rparr>"
proof -
  let ?g = "[[''dup@x.com'', ''canceled'', ''sub_1''], [''x@y.com'', ''active'', ''sub_2''],
             ['' Dup@X.com'', ''past_due'', ''sub_3'']]"
  let ?w = "sheet ?g"
  have h1: "healthy example_config ?w" by simp
  have h2: "first_index (\<lambda>r. toLowerCase (colA r) = toLowerCase (trim ''dup@x.com''))
              (getDataRows (grid ?w)) = Some 0" by code_simp
  have h3: "2 < length (getDataRows (grid ?w))" by code_simp
  have h4: "(2::nat) \<noteq> 0" by simp
  have h5: "toLowerCase (colA (getDataRows (grid ?w) ! 2)) = toLowerCase (trim ''dup@x.com'')"
    by code_simp
  have e1: "toLowerCase (trim ''dup@x.com'') \<noteq> []" by code_simp
  have e2: "row_result (getDataRows (grid ?w) ! 0) = \<lparr>paid = False, status = Some ''canceled''\<rparr>"
    by code_simp
  have e3: "snd (upsertPaidUser example_config ''dup@x.com'' ''active'' ''sub_9'' ?w)
       = \<lparr>grid = [[''dup@x.com'', ''active'', ''sub_9''], [''x@y.com'', ''active'', ''sub_2''],
                   ['' Dup@X.com'', ''past_due'', ''sub_3'']],
           faults = [], calls = [Get 3, Update 1 1 [''active'', ''sub_9'']]\<rparr>"
    by code_simp
  note T = duplicate_data_rows_first_wins [OF h1 h2 h3 h4 h5, of "''active''" "''sub_9''"]
  from T have c1: "fst (upsertPaidUser example_config ''dup@x.com'' ''active'' ''sub_9'' ?w) = Inr ()"
    by blast
  from T e1 e2 have c2: "fst (checkPaidUserEmail example_config ''dup@x.com'' ?w)
       = Inr \<lparr>paid = False, status = Some ''canceled''\<rparr>"
    by simp
  from c1 e3 have c3: "upsertPaidUser example_config ''dup@x.com'' ''active'' ''sub_9'' ?w
       = (Inr (), \<lparr>grid = [[''dup@x.com'', ''active'', ''sub_9''], [''x@y.com'', ''active'', ''sub_2''],
                   ['' Dup@X.com'', ''past_due'', ''sub_3'']],
           faults = [], calls = [Get 3, Update 1 1 [''active'', ''sub_9'']]\<rparr>)"
    by (simp add: prod_eq_iff)
  from h2 h5 c2 c3 show ?thesis by simp
qed

text \<open>
  Claim C9 says that of two or more data rows with the same email the upsert rewrites only
  the first and the query reports the first. On an empty sheet two activations of
  \<^verbatim>\<open>myemail@gmail.com\<close> followed by a \<^verbatim>\<open>customer.subscription.updated\<close> event with
  status \<^verbatim>\<open>past_due\<close> leave two rows for that email, the first active and the second
  past due. On that sheet, which has no header, the first row is taken for one: the
  upsert rewrites sheet row 2 and leaves the first duplicate as it was, and the query
  reports the status of the second row.
\<close>

theorem duplicate_first_row_skipped:
  "grid (snd (webhook_dispatch example_config
       (SubscriptionUpdated (Some \<lparr>sub_id = Some ''sub_1'', sub_status = Some ''past_due''\<rparr>))
       (snd (upsertPaidUser example_config ''myemail@gmail.com'' ''active'' ''sub_1''
          (snd (upsertPaidUser example_config ''myemail@gmail.com'' ''active'' ''sub_1''
             (sheet [])))))))
     = [[''myemail@gmail.com'', ''active'', ''sub_1''],
        [''myemail@gmail.com'', ''past_due'', ''sub_1'']]
   \<and> map (\<lambda>r. toLowerCase (colA r))
        [[''myemail@gmail.com'', ''active'', ''sub_1''],
         [''myemail@gmail.com'', ''past_due'', ''sub_1'']]
       = [toLowerCase (trim ''myemail@gmail.com''), toLowerCase (trim ''myemail@gmail.com'')]
   \<and> upsertPaidUser example_config ''myemail@gmail.com'' ''active'' ''sub_9''
        (sheet [[''myemail@gmail.com'', ''active'', ''sub_1''],
                [''myemail@gmail.com'', ''past_due'', ''sub_1'']])
       = (Inr (),
          \<lparr>grid = [[''myemail@gmail.com'', ''active'', ''sub_1''],
                   [''myemail@gmail.com'', ''active'', ''sub_9'']],
           faults = [], calls = [Get 3, Update 2 1 [''active'', ''sub_9'']]\<rparr>)
   \<and> fst (checkPaidUserEmail example_config ''myemail@gmail.com''
        (sheet [[''myemail@gmail.com'', ''active'', ''sub_1''],
                [''myemail@gmail.com'', ''past_due'', ''sub_1'']]))
       = Inr \<lparr>paid = False, status = Some ''past_due''\<rparr>"
  by code_simp

section \<open>Email of a Checkout Session\<close>

text \<open>
  With no field key configured and no usable dropdown value among the custom fields, the
  email is the trimmed value of the first text field that has one, and otherwise the
  fallback chain \<^verbatim>\<open>customer_email\<close>, \<^verbatim>\<open>customer_details.email\<close>,
  \<^verbatim>\<open>customer_details.customer_email\<close>.
\<close>

lemma match_fields_no_key_no_dropdown:
  "\<forall>f\<in>set fs. candidate (dropdown_value f) True = None \<Longrightarrow>
   match_fields [] fs = first_text_field fs"
  by (induction fs) (auto split: option.splits)

lemma session_email_text_fields_only:
  assumes "googleAccountFieldKey cfg = []"
    and "custom_fields s = Some fs"
    and "\<forall>f\<in>set fs. candidate (dropdown_value f) True = None"
  shows "getGoogleEmailFromSession cfg s =
     (case first_text_field fs of Some v \<Rightarrow> Some v | None \<Rightarrow> fallback_email s)"
proof (cases fs)
  case Nil
  with assms show ?thesis
    by (simp add: getGoogleEmailFromSession_def)
next
  case (Cons f fs')
  from assms(3) have "match_fields [] fs = first_text_field fs"
    by (rule match_fields_no_key_no_dropdown)
  with assms(1,2) Cons show ?thesis
    by (simp add: getGoogleEmailFromSession_def split: option.splits)
qed

lemma session_email_no_fields:
  "custom_fields s = None \<or> custom_fields s = Some [] \<Longrightarrow>
   getGoogleEmailFromSession cfg s = fallback_email s"
  by (auto simp: getGoogleEmailFromSession_def)

text \<open>
  Claim C5 says that with no field key configured the email is the value of the first
  text custom field. The first loop of \<^verbatim>\<open>getGoogleEmailFromSession\<close> also takes
  dropdown values and, with no key configured, accepts every field: a dropdown field
  that precedes the text field wins. For the session below, whose first text field holds
  \<^verbatim>\<open>a@b.com\<close>, the function returns the dropdown value \<^verbatim>\<open>plan_a\<close>, and the webhook
  records \<^verbatim>\<open>plan_a\<close> as the paying account.
\<close>

theorem dropdown_precedes_first_text_field:
  "googleAccountFieldKey example_config = []
   \<and> first_text_field
        [\<lparr>cf_key = Some ''plan'', cf_text = None, cf_dropdown = Some (Some ''plan_a'')\<rparr>,
         \<lparr>cf_key = Some ''google_account'', cf_text = Some (Some ''a@b.com''),
          cf_dropdown = None\<rparr>] = Some ''a@b.com''
   \<and> getGoogleEmailFromSession example_config
        \<lparr>custom_fields = Some
           [\<lparr>cf_key = Some ''plan'', cf_text = None, cf_dropdown = Some (Some ''plan_a'')\<rparr>,
            \<lparr>cf_key = Some ''google_account'', cf_text = Some (Some ''a@b.com''),
             cf_dropdown = None\<rparr>],
         customer_email = Some ''c@d.com'', session_customer_details = None,
         subscription = Some ''sub_1''\<rparr> = Some ''plan_a''
   \<and> grid (snd (webhook_dispatch example_config
        (CheckoutSessionCompleted (Some
          \<lparr>custom_fields = Some
             [\<lparr>cf_key = Some ''plan'', cf_text = None, cf_dropdown = Some (Some ''plan_a'')\<rparr>,
              \<lparr>cf_key = Some ''google_account'', cf_text = Some (Some ''a@b.com''),
               cf_dropdown = None\<rparr>],
           customer_email = Some ''c@d.com'', session_customer_details = None,
           subscription = Some ''sub_1''\<rparr>))
        (sheet []))) = [[''plan_a'', ''active'', ''sub_1'']]"
  by code_simp

section \<open>Activation: read after write, and idempotence\<close>

lemma first_index_update:
  "i < length xs \<Longrightarrow> P y = P (xs ! i) \<Longrightarrow> first_index P (xs[i := y]) = first_index P xs"
proof (induction xs arbitrary: i)
  case Nil
  then show ?case by simp
next
  case (Cons x xs)
  then show ?case
    by (cases i) simp_all
qed

lemma first_index_append_new:
  "first_index P xs = None \<Longrightarrow> P y \<Longrightarrow> first_index P (xs @ [y]) = Some (length xs)"
  by (induction xs) (auto split: if_splits)

lemma write_row_twice [simp]: "write_row c vs (write_row c vs r) = write_row c vs r"
  by (simp add: write_row_def)

lemma colB_write_row [simp]: "colB (write_row (Suc 0) (st # vs) r) = trim st"
  by (cases r) (simp_all add: write_row_def colB_def cell_def)

lemma getDataRows_append:
  "g \<noteq> [] \<or> \<not> str_includes (toLowerCase (string_or_empty (cell x 0))) ''email'' \<Longrightarrow>
   getDataRows (g @ [x]) = getDataRows g @ [x]"
  by (cases g) (auto simp: getDataRows_def first_cell_lower_def)

lemma notin_tl: "x \<notin> set xs \<Longrightarrow> x \<notin> set (tl xs)"
  by (cases xs) simp_all

lemma healthy_after_upsert:
  assumes "healthy cfg w"
  shows "healthy cfg (snd (upsertPaidUser cfg email st sid w))"
proof -
  from assms have "True \<notin> set (tl (tl (faults w)))"
    by (simp add: healthy_def notin_tl)
  with assms show ?thesis
    by (simp add: upsertPaidUser_ok [OF assms] healthy_def split: option.splits)
qed

lemma row_result_active:
  "colB r = ''active'' \<Longrightarrow> row_result r = \<lparr>paid = True, status = Some ''active''\<rparr>"
  by (simp add: row_result_def STATUS_ACTIVE_def toLowerCase_def lower_char_def)

lemma trim_active: "trim ''active'' = ''active''"
  by (simp add: trim_def is_space_def)

text \<open>
  After an upsert into a sheet that is not empty, or of an email without \<^verbatim>\<open>email\<close> in
  it, the scan of the data rows finds the email, at a row that already holds the written
  status and subscription id.
\<close>

lemma upsert_data_rows:
  assumes "healthy cfg w"
    and "grid w \<noteq> [] \<or> \<not> str_includes (toLowerCase email) ''email''"
  shows "\<exists>i. first_index (\<lambda>r. toLowerCase (colA r) = toLowerCase (trim email))
               (getDataRows (grid (snd (upsertPaidUser cfg email st sid w)))) = Some i
           \<and> i < length (getDataRows (grid (snd (upsertPaidUser cfg email st sid w))))
           \<and> write_row 1 [st, trim sid]
                (getDataRows (grid (snd (upsertPaidUser cfg email st sid w))) ! i)
               = getDataRows (grid (snd (upsertPaidUser cfg email st sid w))) ! i"
proof (cases "first_index (\<lambda>r. toLowerCase (colA r) = toLowerCase (trim email))
               (getDataRows (grid w))")
  case (Some i)
  from first_index_Some [OF Some] have i: "i < length (getDataRows (grid w))"
    by simp
  note u = upsert_found [OF assms(1) Some, of st sid]
  from u(1) i Some have "first_index (\<lambda>r. toLowerCase (colA r) = toLowerCase (trim email))
      (getDataRows (grid (snd (upsertPaidUser cfg email st sid w)))) = Some i"
    by (simp add: first_index_update)
  with u(1) i show ?thesis
    by simp
next
  case None
  let ?x = "[email, st, trim sid]"
  from assms(1) None have g: "grid (snd (upsertPaidUser cfg email st sid w)) = grid w @ [?x]"
    by (simp add: upsertPaidUser_ok)
  from assms(2) have "getDataRows (grid w @ [?x]) = getDataRows (grid w) @ [?x]"
    by (intro getDataRows_append) (simp add: cell_def string_or_empty_def)
  with g have d: "getDataRows (grid (snd (upsertPaidUser cfg email st sid w)))
      = getDataRows (grid w) @ [?x]"
    by simp
  have m: "toLowerCase (colA ?x) = toLowerCase (trim email)"
    by (simp add: colA_def cell_def)
  from first_index_append_new [OF None, of ?x] m
  have "first_index (\<lambda>r. toLowerCase (colA r) = toLowerCase (trim email))
      (getDataRows (grid w) @ [?x]) = Some (length (getDataRows (grid w)))"
    by simp
  with d show ?thesis
    by (simp add: write_row_def)
qed

text \<open>
  Outside the case of an empty sheet and an email with \<^verbatim>\<open>email\<close> in it, an activation
  followed by the query answers \<^verbatim>\<open>{paid: true, status: "active"}\<close>, and a second
  upsert with the same arguments leaves the grid as the first one made it.
\<close>

lemma activate_then_query:
  assumes "healthy cfg w"
    and "toLowerCase (trim email) \<noteq> []"
    and "grid w \<noteq> [] \<or> \<not> str_includes (toLowerCase email) ''email''"
  shows "fst (checkPaidUserEmail cfg email (snd (upsertPaidUser cfg email STATUS_ACTIVE sid w)))
     = Inr \<lparr>paid = True, status = Some ''active''\<rparr>"
proof -
  let ?w' = "snd (upsertPaidUser cfg email STATUS_ACTIVE sid w)"
  from upsert_data_rows [OF assms(1,3), of STATUS_ACTIVE sid]
  obtain i where i: "first_index (\<lambda>r. toLowerCase (colA r) = toLowerCase (trim email))
               (getDataRows (grid ?w')) = Some i"
    and r: "write_row 1 [STATUS_ACTIVE, trim sid] (getDataRows (grid ?w') ! i)
               = getDataRows (grid ?w') ! i"
    by blast
  have "colB (write_row 1 [STATUS_ACTIVE, trim sid] (getDataRows (grid ?w') ! i)) = ''active''"
    by (simp add: STATUS_ACTIVE_def trim_active)
  with r have "row_result (getDataRows (grid ?w') ! i) = \<lparr>paid = True, status = Some ''active''\<rparr>"
    by (simp add: row_result_active)
  with i assms(2) healthy_after_upsert [OF assms(1), of email STATUS_ACTIVE sid] show ?thesis
    by (simp add: checkPaidUserEmail_ok scan_email_first_index)
qed

lemma upsert_twice:
  assumes "healthy cfg w"
    and "grid w \<noteq> [] \<or> \<not> str_includes (toLowerCase email) ''email''"
  shows "grid (snd (upsertPaidUser cfg email st sid (snd (upsertPaidUser cfg email st sid w))))
     = grid (snd (upsertPaidUser cfg email st sid w))"
proof -
  let ?w' = "snd (upsertPaidUser cfg email st sid w)"
  let ?g = "grid ?w'"
  from upsert_data_rows [OF assms, of st sid]
  obtain i where i: "first_index (\<lambda>r. toLowerCase (colA r) = toLowerCase (trim email))
               (getDataRows ?g) = Some i"
    and l: "i < length (getDataRows ?g)"
    and r: "write_row 1 [st, trim sid] (getDataRows ?g ! i) = getDataRows ?g ! i"
    by blast
  let ?k = "length ?g - length (getDataRows ?g) + i"
  from l have k: "?k < length ?g"
    by (rule header_offset_bound)
  from l have n: "getDataRows ?g ! i = ?g ! ?k"
    by (rule getDataRows_nth)
  from healthy_after_upsert [OF assms(1), of email st sid] i k
  have "grid (snd (upsertPaidUser cfg email st sid ?w'))
      = ?g[?k := write_row 1 [st, trim sid] (?g ! ?k)]"
    by (simp add: upsertPaidUser_ok write_cells_in_range)
  with r n show ?thesis
    by simp
qed

text \<open>
  Claim C1 says that an activation followed by the query on the same email answers
  \<^verbatim>\<open>{paid: true, status: "active"}\<close> for every valid email. On an empty sheet the
  activation of \<^verbatim>\<open>myemail@gmail.com\<close> appends the record as the first row; the query
  then takes that row for a header and answers \<^verbatim>\<open>{paid: false}\<close>, also through the
  two HTTP handlers.
\<close>

theorem activation_invisible_on_empty_sheet:
  "grid (snd (upsertPaidUser example_config ''myemail@gmail.com'' STATUS_ACTIVE ''sub_1''
       (sheet []))) = [[''myemail@gmail.com'', ''active'', ''sub_1'']]
   \<and> fst (checkPaidUserEmail example_config ''myemail@gmail.com''
        (snd (upsertPaidUser example_config ''myemail@gmail.com'' STATUS_ACTIVE ''sub_1''
           (sheet []))))
       = Inr \<lparr>paid = False, status = None\<rparr>
   \<and> fst (check_handler example_config (Some ''myemail@gmail.com'')
        (snd (webhook_dispatch example_config
           (CheckoutSessionCompleted (Some
              \<lparr>custom_fields = None, customer_email = Some ''myemail@gmail.com'',
               session_customer_details = None, subscription = Some ''sub_1''\<rparr>))
           (sheet []))))
       = \<lparr>code = 200, body = CheckBody \<lparr>paid = False, status = None\<rparr>\<rparr>"
  by code_simp

text \<open>
  Claim C2 says that applying the same upsert twice gives the same rows as applying it
  once. On an empty sheet the second activation of \<^verbatim>\<open>myemail@gmail.com\<close> takes the
  row written by the first for a header, finds no match and appends the record again.
\<close>

theorem second_activation_appends_duplicate:
  "grid (snd (upsertPaidUser example_config ''myemail@gmail.com'' ''active'' ''sub_1''
       (sheet []))) = [[''myemail@gmail.com'', ''active'', ''sub_1'']]
   \<and> grid (snd (upsertPaidUser example_config ''myemail@gmail.com'' ''active'' ''sub_1''
        (snd (upsertPaidUser example_config ''myemail@gmail.com'' ''active'' ''sub_1''
           (sheet [])))))
       = [[''myemail@gmail.com'', ''active'', ''sub_1''],
          [''myemail@gmail.com'', ''active'', ''sub_1'']]"
  by code_simp

end
